theory Spec2Isabelle
  imports Main "HOL-Library.Word"
begin

unbundle bit_operations_syntax

section \<open>Go values\<close>

text \<open>
  A Go \<^verbatim>\<open>string\<close> is a byte sequence and is modelled as \<^typ>\<open>string\<close>; a
  \<^verbatim>\<open>[]byte\<close> is a list of 8-bit words, the \<^verbatim>\<open>nil\<close> slice being the empty list.
  The conversion \<^verbatim>\<open>[]byte("...")\<close> of a string literal is \<open>bytes_of_string\<close>.
\<close>

type_synonym byte = "8 word"

definition bytes_of_string :: "string \<Rightarrow> byte list" where
  "bytes_of_string s = map of_char s"

text \<open>
  Error values. The program builds its errors with \<^verbatim>\<open>fmt.Errorf\<close>; there is one
  constructor for each format string of the source, holding the arguments of the call:
  \<^item> \<open>ReadError name err\<close> is \<^verbatim>\<open>fmt.Errorf("Read %q: %v", name, err)\<close>,
  \<^item> \<open>AssetReadError name err\<close> is \<^verbatim>\<open>fmt.Errorf("Asset %s can't read by error: %v", name, err)\<close>,
  \<^item> \<open>AssetNotFound name\<close> is \<^verbatim>\<open>fmt.Errorf("Asset %s not found", name)\<close>,
  \<^item> \<open>AssetInfoReadError name err\<close> is \<^verbatim>\<open>fmt.Errorf("AssetInfo %s can't read by error: %v", name, err)\<close>,
  \<^item> \<open>AssetInfoNotFound name\<close> is \<^verbatim>\<open>fmt.Errorf("AssetInfo %s not found", name)\<close>,
  \<^item> \<open>LibError msg\<close> is an error value handed out by a library (gzip, flate, io, os).
  A Go result \<^verbatim>\<open>(T, error)\<close> that is either \<^verbatim>\<open>(nil, err)\<close> or \<^verbatim>\<open>(v, nil)\<close>
  is a value of \<open>error + T\<close>.
\<close>

datatype error =
    LibError string
  | ReadError string error
  | AssetReadError string error
  | AssetNotFound string
  | AssetInfoReadError string error
  | AssetInfoNotFound string

section \<open>Library functions of package strings\<close>

text \<open>
  \<^verbatim>\<open>strings.Replace(s, old, new, -1)\<close>: every non-overlapping occurrence of \<open>old\<close>,
  scanning from the left, is replaced by \<open>new\<close>. Every call of the program passes the
  one-byte string \<^verbatim>\<open>"\\"\<close> for \<open>old\<close>; the case of an empty \<open>old\<close> (where Go inserts
  \<open>new\<close> around every rune) is outside the model, which leaves \<open>s\<close> unchanged there.
\<close>

function strings_Replace :: "string \<Rightarrow> string \<Rightarrow> string \<Rightarrow> string" where
  "strings_Replace [] old new = []"
| "strings_Replace (c # cs) old new =
     (if old \<noteq> [] \<and> take (length old) (c # cs) = old
      then new @ strings_Replace (drop (length old) (c # cs)) old new
      else c # strings_Replace cs old new)"
  by pat_completeness auto
termination
  by (relation "measure (\<lambda>(s, old, new). length s)") auto

text \<open>
  \<^verbatim>\<open>strings.Split(s, sep)\<close> for a non-empty separator: the pieces of \<open>s\<close> between the
  occurrences of \<open>sep\<close>; the empty string gives one empty piece. Every call of the program
  passes \<^verbatim>\<open>"/"\<close>.
\<close>

function split_from :: "string \<Rightarrow> string \<Rightarrow> string \<Rightarrow> string list" where
  "split_from sep cur [] = [cur]"
| "split_from sep cur (c # cs) =
     (if sep \<noteq> [] \<and> take (length sep) (c # cs) = sep
      then cur # split_from sep [] (drop (length sep) (c # cs))
      else split_from sep (cur @ [c]) cs)"
  by pat_completeness auto
termination
  by (relation "measure (\<lambda>(sep, cur, s). length s)") auto

definition strings_Split :: "string \<Rightarrow> string \<Rightarrow> string list" where
  "strings_Split s sep = split_from sep [] s"

section \<open>Assets and their metadata\<close>

text \<open>
  \<^verbatim>\<open>bindataFileInfo\<close>: \<open>size\<close> is an \<^verbatim>\<open>int64\<close>, \<open>mode\<close> an \<^verbatim>\<open>os.FileMode\<close>
  (a \<^verbatim>\<open>uint32\<close>), \<open>modTime\<close> the seconds of \<^verbatim>\<open>time.Unix(sec, 0)\<close>. The values of the
  program are small constants, so the fields are unbounded numbers.
\<close>

record bindataFileInfo =
  fi_name :: string
  fi_size :: int
  fi_mode :: nat
  fi_modTime :: int

definition Name :: "bindataFileInfo \<Rightarrow> string" where
  "Name fi = fi_name fi"

definition Size :: "bindataFileInfo \<Rightarrow> int" where
  "Size fi = fi_size fi"

definition Mode :: "bindataFileInfo \<Rightarrow> nat" where
  "Mode fi = fi_mode fi"

definition ModTime :: "bindataFileInfo \<Rightarrow> int" where
  "ModTime fi = fi_modTime fi"

definition IsDir :: "bindataFileInfo \<Rightarrow> bool" where
  "IsDir fi = False"

text \<open>\<^verbatim>\<open>Sys()\<close> returns the \<^verbatim>\<open>nil\<close> interface value: \<open>None\<close>.\<close>

definition Sys :: "bindataFileInfo \<Rightarrow> unit option" where
  "Sys fi = None"

record asset =
  bytes :: "byte list"
  info :: bindataFileInfo

text \<open>
  A value of type \<^verbatim>\<open>func() (*asset, error)\<close> in the tables is one of the four generated
  top-level functions; it is identified by the function's name. What calling it returns
  depends on the generated file (raw or compressed literals) and is given by an
  interpretation \<open>call :: loader \<Rightarrow> error + asset\<close>.
\<close>

datatype loader =
    Fn_in_a_test_asset
  | Fn_in_b_test_asset
  | Fn_in_c_test_asset
  | Fn_in_test_asset

section \<open>The generated file without compression\<close>

definition raw_in_a_test_asset_data :: "byte list" where
  "raw_in_a_test_asset_data = bytes_of_string ''// sample file\<newline>''"

definition raw_in_a_test_asset_bytes :: "byte list \<times> error option" where
  "raw_in_a_test_asset_bytes = (raw_in_a_test_asset_data, None)"

definition raw_in_a_test_asset :: "error + asset" where
  "raw_in_a_test_asset =
     (case raw_in_a_test_asset_bytes of
        (bs, Some err) \<Rightarrow> Inl err
      | (bs, None) \<Rightarrow>
          Inr \<lparr>bytes = bs,
               info = \<lparr>fi_name = ''in/a/test.asset'', fi_size = 15, fi_mode = 420,
                        fi_modTime = 1430781941\<rparr>\<rparr>)"

definition raw_in_b_test_asset_data :: "byte list" where
  "raw_in_b_test_asset_data = bytes_of_string ''// sample file\<newline>''"

definition raw_in_b_test_asset_bytes :: "byte list \<times> error option" where
  "raw_in_b_test_asset_bytes = (raw_in_b_test_asset_data, None)"

definition raw_in_b_test_asset :: "error + asset" where
  "raw_in_b_test_asset =
     (case raw_in_b_test_asset_bytes of
        (bs, Some err) \<Rightarrow> Inl err
      | (bs, None) \<Rightarrow>
          Inr \<lparr>bytes = bs,
               info = \<lparr>fi_name = ''in/b/test.asset'', fi_size = 15, fi_mode = 420,
                        fi_modTime = 1430781941\<rparr>\<rparr>)"

definition raw_in_c_test_asset_data :: "byte list" where
  "raw_in_c_test_asset_data = bytes_of_string ''// sample file\<newline>''"

definition raw_in_c_test_asset_bytes :: "byte list \<times> error option" where
  "raw_in_c_test_asset_bytes = (raw_in_c_test_asset_data, None)"

definition raw_in_c_test_asset :: "error + asset" where
  "raw_in_c_test_asset =
     (case raw_in_c_test_asset_bytes of
        (bs, Some err) \<Rightarrow> Inl err
      | (bs, None) \<Rightarrow>
          Inr \<lparr>bytes = bs,
               info = \<lparr>fi_name = ''in/c/test.asset'', fi_size = 15, fi_mode = 420,
                        fi_modTime = 1430781941\<rparr>\<rparr>)"

definition raw_in_test_asset_data :: "byte list" where
  "raw_in_test_asset_data = bytes_of_string ''// sample file\<newline>''"

definition raw_in_test_asset_bytes :: "byte list \<times> error option" where
  "raw_in_test_asset_bytes = (raw_in_test_asset_data, None)"

definition raw_in_test_asset :: "error + asset" where
  "raw_in_test_asset =
     (case raw_in_test_asset_bytes of
        (bs, Some err) \<Rightarrow> Inl err
      | (bs, None) \<Rightarrow>
          Inr \<lparr>bytes = bs,
               info = \<lparr>fi_name = ''in/test.asset'', fi_size = 15, fi_mode = 420,
                        fi_modTime = 1430781941\<rparr>\<rparr>)"

fun raw_call :: "loader \<Rightarrow> error + asset" where
  "raw_call Fn_in_a_test_asset = raw_in_a_test_asset"
| "raw_call Fn_in_b_test_asset = raw_in_b_test_asset"
| "raw_call Fn_in_c_test_asset = raw_in_c_test_asset"
| "raw_call Fn_in_test_asset = raw_in_test_asset"

section \<open>The table, the tree and the access functions\<close>

text \<open>
  The functions below are the same in both generated files. A Go map literal is an
  association list (its keys are distinct: a duplicate key does not compile), looked up
  with \<^const>\<open>map_of\<close>.
\<close>

definition bindata_entries :: "(string \<times> loader) list" where
  "bindata_entries =
     [(''in/a/test.asset'', Fn_in_a_test_asset),
      (''in/b/test.asset'', Fn_in_b_test_asset),
      (''in/c/test.asset'', Fn_in_c_test_asset),
      (''in/test.asset'', Fn_in_test_asset)]"

definition bindata :: "string \<rightharpoonup> loader" where
  "bindata = map_of bindata_entries"

definition Asset :: "(loader \<Rightarrow> error + asset) \<Rightarrow> string \<Rightarrow> error + byte list" where
  "Asset call name =
     (let cannonicalName = strings_Replace name [CHR 0x5C] ''/'' in
      case bindata cannonicalName of
        Some f \<Rightarrow>
          (case call f of
             Inl err \<Rightarrow> Inl (AssetReadError name err)
           | Inr a \<Rightarrow> Inr (bytes a))
      | None \<Rightarrow> Inl (AssetNotFound name))"

text \<open>
  \<^verbatim>\<open>MustAsset\<close> returns the bytes or panics; the panic value is the string
  \<^verbatim>\<open>"asset: Asset(" + name + "): " + err.Error()\<close>, kept as its two parts.
\<close>

datatype panic = AssetPanic string error

definition MustAsset :: "(loader \<Rightarrow> error + asset) \<Rightarrow> string \<Rightarrow> panic + byte list" where
  "MustAsset call name =
     (case Asset call name of
        Inl err \<Rightarrow> Inl (AssetPanic name err)
      | Inr a \<Rightarrow> Inr a)"

definition AssetInfo :: "(loader \<Rightarrow> error + asset) \<Rightarrow> string \<Rightarrow> error + bindataFileInfo" where
  "AssetInfo call name =
     (let cannonicalName = strings_Replace name [CHR 0x5C] ''/'' in
      case bindata cannonicalName of
        Some f \<Rightarrow>
          (case call f of
             Inl err \<Rightarrow> Inl (AssetInfoReadError name err)
           | Inr a \<Rightarrow> Inr (info a))
      | None \<Rightarrow> Inl (AssetInfoNotFound name))"

text \<open>\<^verbatim>\<open>AssetNames\<close>: the keys of the table, in the order the runtime enumerates them.\<close>

definition AssetNames :: "(string list \<Rightarrow> string list) \<Rightarrow> string list" where
  "AssetNames ord = ord (map fst bindata_entries)"

text \<open>
  \<^verbatim>\<open>bintree\<close> (named \<^verbatim>\<open>_bintree_t\<close> in the file without compression): \<open>Func\<close> is
  \<open>None\<close> for the \<^verbatim>\<open>nil\<close> function, \<open>Children\<close> is the map literal.
\<close>

datatype bintree = Bintree (Func: "loader option") (Children: "(string \<times> bintree) list")

definition bintree_root :: bintree where
  "bintree_root =
     Bintree None [
       (''in'', Bintree None [
         (''a'', Bintree None [
           (''test.asset'', Bintree (Some Fn_in_a_test_asset) [])]),
         (''b'', Bintree None [
           (''test.asset'', Bintree (Some Fn_in_b_test_asset) [])]),
         (''c'', Bintree None [
           (''test.asset'', Bintree (Some Fn_in_c_test_asset) [])]),
         (''test.asset'', Bintree (Some Fn_in_test_asset) [])])]"

text \<open>
  The loop \<^verbatim>\<open>for _, p := range pathList\<close> of \<^verbatim>\<open>AssetDir\<close>: \<open>None\<close> when a
  segment is not a key of the current node's children (the loop returns the error).
\<close>

fun descend :: "bintree \<Rightarrow> string list \<Rightarrow> bintree option" where
  "descend node [] = Some node"
| "descend node (p # pathList) =
     (case map_of (Children node) p of
        None \<Rightarrow> None
      | Some child \<Rightarrow> descend child pathList)"

text \<open>
  \<^verbatim>\<open>AssetDir\<close>. Go enumerates a map in an order it does not specify: \<open>ord\<close> is the
  order the runtime picks, applied to the keys of the literal.
\<close>

definition AssetDir :: "(string list \<Rightarrow> string list) \<Rightarrow> string \<Rightarrow> error + string list" where
  "AssetDir ord name =
     (case (if length name \<noteq> 0
            then (let cannonicalName = strings_Replace name [CHR 0x5C] ''/'';
                      pathList = strings_Split cannonicalName ''/''
                  in descend bintree_root pathList)
            else Some bintree_root) of
        None \<Rightarrow> Inl (AssetNotFound name)
      | Some node \<Rightarrow>
          if Func node \<noteq> None then Inl (AssetNotFound name)
          else Inr (ord (map fst (Children node))))"

text \<open>
  What is known of the order: the runtime yields every key of a map once, that is, a
  list of distinct keys comes back with the same elements and without repetition.
\<close>

definition enumerates_keys :: "(string list \<Rightarrow> string list) \<Rightarrow> bool" where
  "enumerates_keys ord \<longleftrightarrow> (\<forall>ks. distinct ks \<longrightarrow> set (ord ks) = set ks \<and> distinct (ord ks))"

section \<open>The generated file with compression\<close>

text \<open>
  \<^verbatim>\<open>bindataRead\<close> calls three operations of the libraries: \<^verbatim>\<open>gzip.NewReader\<close> on
  the data, \<^verbatim>\<open>io.Copy\<close> from the reader into a buffer, and the reader's
  \<^verbatim>\<open>Close\<close>. They are parameters of the model: \<open>NewReader\<close> returns an error or a
  reader, \<open>Copy\<close> the bytes that reached the buffer, its error and the reader as the
  copy left it, \<open>Close\<close> the reader's error.
\<close>

record 'r gzip_lib =
  NewReader :: "byte list \<Rightarrow> error + 'r"
  Copy :: "'r \<Rightarrow> byte list \<times> error option \<times> 'r"
  Close :: "'r \<Rightarrow> error option"

text \<open>
  The result is the Go pair as written: line 30 of the source returns
  \<^verbatim>\<open>nil, err\<close> in the branch where \<open>clErr\<close> is not \<^verbatim>\<open>nil\<close>.
\<close>

definition bindataRead :: "'r gzip_lib \<Rightarrow> byte list \<Rightarrow> string \<Rightarrow> byte list \<times> error option" where
  "bindataRead lib data name =
     (case NewReader lib data of
        Inl err \<Rightarrow> ([], Some (ReadError name err))
      | Inr gz \<Rightarrow>
          (case Copy lib gz of
             (buf, err, gz') \<Rightarrow>
               (let clErr = Close lib gz' in
                case err of
                  Some e \<Rightarrow> ([], Some (ReadError name e))
                | None \<Rightarrow>
                    if clErr \<noteq> None then ([], err)
                    else (buf, None))))"

definition gz_asset_data :: "byte list" where
  "gz_asset_data =
     [0x1f, 0x8b, 0x08, 0x00, 0x00, 0x09, 0x6e, 0x88, 0x00, 0xff,
      0xd2, 0xd7, 0x57, 0x28, 0x4e, 0xcc, 0x2d, 0xc8, 0x49, 0x55, 0x48, 0xcb, 0xcc, 0x49,
      0xe5, 0x02, 0x04, 0x00, 0x00, 0xff, 0xff,
      0x8a, 0x82, 0x8c, 0x85, 0x0f, 0x00, 0x00, 0x00]"

definition gz_in_a_test_asset_data :: "byte list" where
  "gz_in_a_test_asset_data = gz_asset_data"

definition gz_in_a_test_asset_bytes :: "'r gzip_lib \<Rightarrow> byte list \<times> error option" where
  "gz_in_a_test_asset_bytes lib = bindataRead lib gz_in_a_test_asset_data ''in/a/test.asset''"

definition gz_in_a_test_asset :: "'r gzip_lib \<Rightarrow> error + asset" where
  "gz_in_a_test_asset lib =
     (case gz_in_a_test_asset_bytes lib of
        (bs, Some err) \<Rightarrow> Inl err
      | (bs, None) \<Rightarrow>
          Inr \<lparr>bytes = bs,
               info = \<lparr>fi_name = ''in/a/test.asset'', fi_size = 15, fi_mode = 420,
                        fi_modTime = 1431385279\<rparr>\<rparr>)"

definition gz_in_b_test_asset_data :: "byte list" where
  "gz_in_b_test_asset_data = gz_asset_data"

definition gz_in_b_test_asset_bytes :: "'r gzip_lib \<Rightarrow> byte list \<times> error option" where
  "gz_in_b_test_asset_bytes lib = bindataRead lib gz_in_b_test_asset_data ''in/b/test.asset''"

definition gz_in_b_test_asset :: "'r gzip_lib \<Rightarrow> error + asset" where
  "gz_in_b_test_asset lib =
     (case gz_in_b_test_asset_bytes lib of
        (bs, Some err) \<Rightarrow> Inl err
      | (bs, None) \<Rightarrow>
          Inr \<lparr>bytes = bs,
               info = \<lparr>fi_name = ''in/b/test.asset'', fi_size = 15, fi_mode = 420,
                        fi_modTime = 1430781941\<rparr>\<rparr>)"

definition gz_in_c_test_asset_data :: "byte list" where
  "gz_in_c_test_asset_data = gz_asset_data"

definition gz_in_c_test_asset_bytes :: "'r gzip_lib \<Rightarrow> byte list \<times> error option" where
  "gz_in_c_test_asset_bytes lib = bindataRead lib gz_in_c_test_asset_data ''in/c/test.asset''"

definition gz_in_c_test_asset :: "'r gzip_lib \<Rightarrow> error + asset" where
  "gz_in_c_test_asset lib =
     (case gz_in_c_test_asset_bytes lib of
        (bs, Some err) \<Rightarrow> Inl err
      | (bs, None) \<Rightarrow>
          Inr \<lparr>bytes = bs,
               info = \<lparr>fi_name = ''in/c/test.asset'', fi_size = 15, fi_mode = 420,
                        fi_modTime = 1430781941\<rparr>\<rparr>)"

definition gz_in_test_asset_data :: "byte list" where
  "gz_in_test_asset_data = gz_asset_data"

definition gz_in_test_asset_bytes :: "'r gzip_lib \<Rightarrow> byte list \<times> error option" where
  "gz_in_test_asset_bytes lib = bindataRead lib gz_in_test_asset_data ''in/test.asset''"

definition gz_in_test_asset :: "'r gzip_lib \<Rightarrow> error + asset" where
  "gz_in_test_asset lib =
     (case gz_in_test_asset_bytes lib of
        (bs, Some err) \<Rightarrow> Inl err
      | (bs, None) \<Rightarrow>
          Inr \<lparr>bytes = bs,
               info = \<lparr>fi_name = ''in/test.asset'', fi_size = 15, fi_mode = 420,
                        fi_modTime = 1430781941\<rparr>\<rparr>)"

fun gz_call :: "'r gzip_lib \<Rightarrow> loader \<Rightarrow> error + asset" where
  "gz_call lib Fn_in_a_test_asset = gz_in_a_test_asset lib"
| "gz_call lib Fn_in_b_test_asset = gz_in_b_test_asset lib"
| "gz_call lib Fn_in_c_test_asset = gz_in_c_test_asset lib"
| "gz_call lib Fn_in_test_asset = gz_in_test_asset lib"

section \<open>Library functions of package path\<close>

text \<open>\<^verbatim>\<open>strings.Join(elems, sep)\<close>.\<close>

fun strings_Join :: "string list \<Rightarrow> string \<Rightarrow> string" where
  "strings_Join [] sep = []"
| "strings_Join [e] sep = e"
| "strings_Join (e # e' # es) sep = e @ sep @ strings_Join (e' # es) sep"

text \<open>
  \<^verbatim>\<open>path.Clean\<close>, after the loop of the Go library: \<open>rest\<close> is the part of the path
  still to read (\<^verbatim>\<open>path[r:]\<close>), \<open>out\<close> the buffer written so far (\<^verbatim>\<open>out.w\<close> is its
  length) and \<open>dotdot\<close> the index where a \<^verbatim>\<open>".."\<close> must stop. \<open>step_back\<close> is the inner loop
  that steps \<^verbatim>\<open>out.w\<close> back to the last slash, started at \<^verbatim>\<open>out.w - 1\<close>.
\<close>

function step_back :: "string \<Rightarrow> nat \<Rightarrow> nat \<Rightarrow> nat" where
  "step_back out dotdot w =
     (if w > dotdot \<and> out ! w \<noteq> CHR ''/'' then step_back out dotdot (w - 1) else w)"
  by pat_completeness auto
termination
  by (relation "measure (\<lambda>(out, dotdot, w). w)") auto

declare step_back.simps [simp del]

text \<open>
  One turn of the loop \<^verbatim>\<open>for r < n\<close>, reading at \<open>c # cs\<close>: the four cases of the
  \<^verbatim>\<open>switch\<close> in the order of the source. The result is what is left to read, the
  buffer and \<open>dotdot\<close>.
\<close>

definition clean_step :: "bool \<Rightarrow> char \<Rightarrow> string \<Rightarrow> string \<Rightarrow> nat \<Rightarrow> string \<times> string \<times> nat" where
  "clean_step rooted c cs out dotdot =
     (if c = CHR ''/'' then (cs, out, dotdot)
      else if c = CHR ''.'' \<and> (cs = [] \<or> hd cs = CHR ''/'') then (cs, out, dotdot)
      else if c = CHR ''.'' \<and> cs \<noteq> [] \<and> hd cs = CHR ''.'' \<and> (tl cs = [] \<or> hd (tl cs) = CHR ''/'')
      then (if length out > dotdot
            then (tl cs, take (step_back out dotdot (length out - 1)) out, dotdot)
            else if \<not> rooted
            then (tl cs, (if length out > 0 then out @ ''/'' else out) @ ''..'',
                  length ((if length out > 0 then out @ ''/'' else out) @ ''..''))
            else (tl cs, out, dotdot))
      else (dropWhile (\<lambda>x. x \<noteq> CHR ''/'') cs,
            (if rooted \<and> length out \<noteq> 1 \<or> \<not> rooted \<and> length out \<noteq> 0 then out @ ''/'' else out)
              @ c # takeWhile (\<lambda>x. x \<noteq> CHR ''/'') cs,
            dotdot))"

lemma clean_step_shorter: "length (fst (clean_step rooted c cs out dotdot)) \<le> length cs"
  by (simp add: clean_step_def length_dropWhile_le)

function clean_loop :: "bool \<Rightarrow> string \<Rightarrow> string \<Rightarrow> nat \<Rightarrow> string" where
  "clean_loop rooted [] out dotdot = out"
| "clean_loop rooted (c # cs) out dotdot =
     (case clean_step rooted c cs out dotdot of
        (rest, out', dotdot') \<Rightarrow> clean_loop rooted rest out' dotdot')"
  by pat_completeness auto
termination
proof (relation "measure (\<lambda>(rooted, rest, out, dotdot). length rest)")
  fix rooted c cs out dotdot rest y out' dotdot'
  assume "(rest, y) = clean_step rooted c cs out dotdot"
  then have "rest = fst (clean_step rooted c cs out dotdot)" by (metis fst_conv)
  then have "length rest \<le> length cs" by (simp add: clean_step_shorter)
  then show "((rooted, rest, out', dotdot'), rooted, c # cs, out, dotdot)
             \<in> measure (\<lambda>(rooted, rest, out, dotdot). length rest)" by simp
qed simp

definition path_Clean :: "string \<Rightarrow> string" where
  "path_Clean path =
     (if path = [] then ''.''
      else let rooted = (hd path = CHR ''/'');
               out = (if rooted then clean_loop True (tl path) ''/'' 1
                      else clean_loop False path [] 0)
           in if length out = 0 then ''.'' else out)"

text \<open>\<^verbatim>\<open>path.Join(elem...)\<close>: the elements from the first non-empty one on, joined by slashes and cleaned.\<close>

fun path_Join :: "string list \<Rightarrow> string" where
  "path_Join [] = []"
| "path_Join (e # es) =
     (if e \<noteq> [] then path_Clean (strings_Join (e # es) ''/'') else path_Join es)"

text \<open>\<^verbatim>\<open>path.Dir(path)\<close>: the path up to its last slash, cleaned.\<close>

definition path_Dir :: "string \<Rightarrow> string" where
  "path_Dir path = path_Clean (rev (dropWhile (\<lambda>x. x \<noteq> CHR ''/'') (rev path)))"

section \<open>Restoring assets\<close>

text \<open>
  The operations of package \<^verbatim>\<open>os\<close> (and \<^verbatim>\<open>ioutil.WriteFile\<close>) act on the file system:
  they are parameters of the model, each taking the state \<open>'w\<close> of the file system and
  returning its error and the new state. \<^verbatim>\<open>filepath.Join\<close> depends on the platform's
  separator and is a parameter too.
\<close>

record 'w os_lib =
  MkdirAll :: "string \<Rightarrow> nat \<Rightarrow> 'w \<Rightarrow> error option \<times> 'w"
  WriteFile :: "string \<Rightarrow> byte list \<Rightarrow> nat \<Rightarrow> 'w \<Rightarrow> error option \<times> 'w"
  Chtimes :: "string \<Rightarrow> int \<Rightarrow> int \<Rightarrow> 'w \<Rightarrow> error option \<times> 'w"
  filepath_Join :: "string list \<Rightarrow> string"

definition filePath :: "'w os_lib \<Rightarrow> string \<Rightarrow> string \<Rightarrow> string" where
  "filePath os dir name =
     (let cannonicalName = strings_Replace name [CHR 0x5C] ''/''
      in filepath_Join os ([dir] @ strings_Split cannonicalName ''/''))"

text \<open>\<^verbatim>\<open>RestoreAsset\<close>; \<^verbatim>\<open>os.FileMode(0755)\<close> is 493.\<close>

definition RestoreAsset ::
  "(loader \<Rightarrow> error + asset) \<Rightarrow> 'w os_lib \<Rightarrow> string \<Rightarrow> string \<Rightarrow> 'w \<Rightarrow> error option \<times> 'w" where
  "RestoreAsset call os dir name w =
     (case Asset call name of
        Inl err \<Rightarrow> (Some err, w)
      | Inr data \<Rightarrow>
     (case AssetInfo call name of
        Inl err \<Rightarrow> (Some err, w)
      | Inr finfo \<Rightarrow>
     (case MkdirAll os (filePath os dir (path_Dir name)) 493 w of
        (Some err, w1) \<Rightarrow> (Some err, w1)
      | (None, w1) \<Rightarrow>
     (case WriteFile os (filePath os dir name) data (Mode finfo) w1 of
        (Some err, w2) \<Rightarrow> (Some err, w2)
      | (None, w2) \<Rightarrow>
     (case Chtimes os (filePath os dir name) (ModTime finfo) (ModTime finfo) w2 of
        (Some err, w3) \<Rightarrow> (Some err, w3)
      | (None, w3) \<Rightarrow> (None, w3))))))"

text \<open>
  \<^verbatim>\<open>RestoreAssets\<close> calls itself on the children of a directory. The recursion follows
  names, not the tree, and nothing in the source bounds it, so the model counts the depth
  of the calls: \<open>None\<close> when \<open>fuel\<close> calls did not suffice. \<open>for_children\<close> is the loop
  \<^verbatim>\<open>for _, child := range children\<close>, which returns at the first error.
\<close>

fun for_children ::
  "(string \<Rightarrow> 'w \<Rightarrow> (error option \<times> 'w) option) \<Rightarrow> string list \<Rightarrow> 'w \<Rightarrow> (error option \<times> 'w) option" where
  "for_children body [] w = Some (None, w)"
| "for_children body (child # rest) w =
     (case body child w of
        None \<Rightarrow> None
      | Some (Some err, w') \<Rightarrow> Some (Some err, w')
      | Some (None, w') \<Rightarrow> for_children body rest w')"

primrec RestoreAssets ::
  "nat \<Rightarrow> (loader \<Rightarrow> error + asset) \<Rightarrow> (string list \<Rightarrow> string list) \<Rightarrow> 'w os_lib \<Rightarrow>
   string \<Rightarrow> string \<Rightarrow> 'w \<Rightarrow> (error option \<times> 'w) option" where
  "RestoreAssets 0 call ord os dir name w = None"
| "RestoreAssets (Suc fuel) call ord os dir name w =
     (case AssetDir ord name of
        Inl err \<Rightarrow> Some (RestoreAsset call os dir name w)
      | Inr children \<Rightarrow>
          for_children (\<lambda>child. RestoreAssets fuel call ord os dir (path_Join [name, child]))
            children w)"
section \<open>Auxiliary functions of the proofs\<close>

text \<open>
  Splitting on one character by structural recursion, its inverse, and the list of all
  nodes of a tree with their paths; \<open>strings_Split\<close> and \<open>descend\<close> are related to them
  below.
\<close>

fun splitc :: "char \<Rightarrow> string \<Rightarrow> string list" where
  "splitc d [] = [[]]"
| "splitc d (c # cs) =
     (if c = d then [] # splitc d cs
      else (case splitc d cs of [] \<Rightarrow> [[c]] | w # ws \<Rightarrow> (c # w) # ws))"

fun joinc :: "char \<Rightarrow> string list \<Rightarrow> string" where
  "joinc d [] = []"
| "joinc d [w] = w"
| "joinc d (w # v # ws) = w @ d # joinc d (v # ws)"

fun nodes :: "bintree \<Rightarrow> (string list \<times> bintree) list" where
  "nodes (Bintree f cs) =
     ([], Bintree f cs) # concat (map (\<lambda>(k, c). map (\<lambda>(p, n). (k # p, n)) (nodes c)) cs)"

text \<open>
  Restoring a list of names one after the other: the first error ends the run, and the
  file system stays as the failing call left it.
\<close>

fun restore_each ::
  "(string \<Rightarrow> 'w \<Rightarrow> error option \<times> 'w) \<Rightarrow> string list \<Rightarrow> 'w \<Rightarrow> error option \<times> 'w" where
  "restore_each r [] w = (None, w)"
| "restore_each r (x # xs) w =
     (case r x w of
        (Some e, w') \<Rightarrow> (Some e, w')
      | (None, w') \<Rightarrow> restore_each r xs w')"

lemma size_child: "map_of cs k = Some c \<Longrightarrow> size c < Suc (size_list (size_prod (\<lambda>x. 0) size) cs)"
  by (induction cs) (auto split: if_splits)

text \<open>
  The names under which \<^verbatim>\<open>RestoreAssets\<close> reaches the leaves below a node, by
  recursion on the tree: the children in the order \<open>ord\<close>, each name joined to its
  parent's with \<^verbatim>\<open>path.Join\<close>.
\<close>

function leaf_names :: "(string list \<Rightarrow> string list) \<Rightarrow> string \<Rightarrow> bintree \<Rightarrow> string list" where
  "leaf_names ord name (Bintree f cs) =
     (case f of
        Some g \<Rightarrow> [name]
      | None \<Rightarrow>
          concat (map (\<lambda>k. case map_of cs k of
                              None \<Rightarrow> []
                            | Some c \<Rightarrow> leaf_names ord (path_Join [name, k]) c)
                      (ord (map fst cs))))"
  by pat_completeness auto
termination
  by (relation "measure (\<lambda>(ord, name, t). size t)") (auto dest: size_child)

text \<open>The node that \<^verbatim>\<open>AssetDir\<close> reaches for a name.\<close>

definition resolve :: "string \<Rightarrow> bintree option" where
  "resolve name =
     (if name = [] then Some bintree_root
      else descend bintree_root (strings_Split (strings_Replace name [CHR 0x5C] ''/'') ''/''))"

text \<open>All strings that \<^verbatim>\<open>strings.Replace(s, "\\", "/", -1)\<close> can map to a given string.\<close>

fun unreplace :: "string \<Rightarrow> string list" where
  "unreplace [] = [[]]"
| "unreplace (c # cs) =
     (if c = CHR ''/'' then concat (map (\<lambda>r. [CHR ''/'' # r, CHR 0x5C # r]) (unreplace cs))
      else map ((#) c) (unreplace cs))"

text \<open>The node of the tree below \<^verbatim>\<open>"in"\<close>.\<close>

definition in_node :: bintree where
  "in_node =
     Bintree None [
       (''a'', Bintree None [(''test.asset'', Bintree (Some Fn_in_a_test_asset) [])]),
       (''b'', Bintree None [(''test.asset'', Bintree (Some Fn_in_b_test_asset) [])]),
       (''c'', Bintree None [(''test.asset'', Bintree (Some Fn_in_c_test_asset) [])]),
       (''test.asset'', Bintree (Some Fn_in_test_asset) [])]"

text \<open>A key of the table lies under a directory name: the canonical name and a slash start it.\<close>

definition under :: "string \<Rightarrow> string \<Rightarrow> bool" where
  "under name k \<longleftrightarrow>
     name = [] \<or> take (Suc (length name)) k = strings_Replace name [CHR 0x5C] ''/'' @ ''/''"

text \<open>
  A file system for the examples: the files written, each with its data, mode and
  modification time. Writing to the path \<open>bad\<close> fails.
\<close>

type_synonym files = "(string \<times> byte list \<times> nat \<times> int) list"

definition test_os :: "string \<Rightarrow> files os_lib" where
  "test_os bad =
     \<lparr>MkdirAll = (\<lambda>p m w. (None, w)),
      WriteFile = (\<lambda>p d m w. if p = bad then (Some (LibError ''write failed''), w)
                               else (None, w @ [(p, d, m, 0)])),
      Chtimes = (\<lambda>p a m w. (None, map (\<lambda>(q, d, md, t). if q = p then (q, d, md, m) else (q, d, md, t)) w)),
      filepath_Join = path_Join\<rparr>"

section \<open>Strings, the table and the tree\<close>

lemma strings_Replace_char:
  "strings_Replace s [a] [b] = map (\<lambda>c. if c = a then b else c) s"
  by (induction s) auto

lemma splitc_nonempty: "splitc d s \<noteq> []"
  by (induction s) (auto split: list.splits)

lemma split_from_char:
  "split_from [d] cur s = (case splitc d s of [] \<Rightarrow> [cur] | w # ws \<Rightarrow> (cur @ w) # ws)"
proof (induction s arbitrary: cur)
  case Nil
  then show ?case by simp
next
  case (Cons c cs)
  then show ?case using splitc_nonempty[of d cs]
    by (auto split: list.splits)
qed

lemma strings_Split_char: "strings_Split s [d] = splitc d s"
  using splitc_nonempty[of d s] by (simp add: strings_Split_def split_from_char split: list.splits)

lemma joinc_splitc: "joinc d (splitc d s) = s"
proof (induction s)
  case Nil
  then show ?case by simp
next
  case (Cons c cs)
  then show ?case using splitc_nonempty[of d cs]
    by (cases "splitc d cs"; cases "tl (splitc d cs)") (auto split: list.splits)
qed

lemma splitc_inj: "splitc d s = splitc d t \<Longrightarrow> s = t"
  by (metis joinc_splitc)

lemma descend_nodes: "descend t ps = Some n \<Longrightarrow> (ps, n) \<in> set (nodes t)"
proof (induction ps arbitrary: t)
  case Nil
  then show ?case by (cases t) auto
next
  case (Cons p ps)
  obtain f cs where t: "t = Bintree f cs" by (cases t)
  from Cons.prems t obtain c where c: "map_of cs p = Some c" and d: "descend c ps = Some n"
    by (auto split: option.splits)
  from c have "(p, c) \<in> set cs" by (rule map_of_SomeD)
  moreover from Cons.IH[OF d] have "(ps, n) \<in> set (nodes c)" .
  ultimately show ?case unfolding t by force
qed

lemma nodes_root:
  "set (nodes bintree_root) =
     {([], bintree_root),
      ([''in''], Bintree None [
         (''a'', Bintree None [(''test.asset'', Bintree (Some Fn_in_a_test_asset) [])]),
         (''b'', Bintree None [(''test.asset'', Bintree (Some Fn_in_b_test_asset) [])]),
         (''c'', Bintree None [(''test.asset'', Bintree (Some Fn_in_c_test_asset) [])]),
         (''test.asset'', Bintree (Some Fn_in_test_asset) [])]),
      ([''in'', ''a''], Bintree None [(''test.asset'', Bintree (Some Fn_in_a_test_asset) [])]),
      ([''in'', ''a'', ''test.asset''], Bintree (Some Fn_in_a_test_asset) []),
      ([''in'', ''b''], Bintree None [(''test.asset'', Bintree (Some Fn_in_b_test_asset) [])]),
      ([''in'', ''b'', ''test.asset''], Bintree (Some Fn_in_b_test_asset) []),
      ([''in'', ''c''], Bintree None [(''test.asset'', Bintree (Some Fn_in_c_test_asset) [])]),
      ([''in'', ''c'', ''test.asset''], Bintree (Some Fn_in_c_test_asset) []),
      ([''in'', ''test.asset''], Bintree (Some Fn_in_test_asset) [])}"
  by (simp add: bintree_root_def)

lemma leaf_paths:
  assumes "descend bintree_root ps = Some n" and "Func n = Some f"
  shows "(ps, f) \<in> {([''in'', ''a'', ''test.asset''], Fn_in_a_test_asset),
                      ([''in'', ''b'', ''test.asset''], Fn_in_b_test_asset),
                      ([''in'', ''c'', ''test.asset''], Fn_in_c_test_asset),
                      ([''in'', ''test.asset''], Fn_in_test_asset)} \<and> Children n = []"
proof -
  from descend_nodes[OF assms(1)] have "(ps, n) \<in> set (nodes bintree_root)" .
  then show ?thesis using assms(2) unfolding nodes_root
    by (elim insertE emptyE) (simp_all add: bintree_root_def)
qed

lemma bindata_keys:
  "bindata k = Some f \<longleftrightarrow>
     (k, f) \<in> {(''in/a/test.asset'', Fn_in_a_test_asset), (''in/b/test.asset'', Fn_in_b_test_asset),
                (''in/c/test.asset'', Fn_in_c_test_asset), (''in/test.asset'', Fn_in_test_asset)}"
  by (auto simp: bindata_def bindata_entries_def split: if_splits)

lemma key_reaches_leaf:
  assumes "bindata k = Some f"
  shows "descend bintree_root (strings_Split k ''/'') = Some (Bintree (Some f) [])"
  using assms unfolding bindata_keys
  by (elim insertE emptyE) (simp_all add: strings_Split_def bintree_root_def)

text \<open>
  Claim C1. Every key of the table \<^verbatim>\<open>_bindata\<close>, split on \<^verbatim>\<open>"/"\<close> and followed from the
  root of \<^verbatim>\<open>_bintree\<close>, reaches a leaf (a node without children) whose function is the
  one the table holds under that key; and every node of the tree that holds a function is
  reached by the split of exactly one key of the table, which maps to the same function.
\<close>

theorem table_tree_agree:
  "(\<forall>k f. bindata k = Some f \<longrightarrow>
       (\<exists>leaf. descend bintree_root (strings_Split k ''/'') = Some leaf \<and>
               Func leaf = Some f \<and> Children leaf = [])) \<and>
   (\<forall>ps leaf f. descend bintree_root ps = Some leaf \<and> Func leaf = Some f \<longrightarrow>
       (\<exists>!k. k \<in> dom bindata \<and> strings_Split k ''/'' = ps) \<and>
       (\<forall>k. strings_Split k ''/'' = ps \<longrightarrow> bindata k = Some f))"
proof (intro conjI allI impI)
  fix k f assume "bindata k = Some f"
  from key_reaches_leaf[OF this]
  show "\<exists>leaf. descend bintree_root (strings_Split k ''/'') = Some leaf \<and>
               Func leaf = Some f \<and> Children leaf = []" by simp
next
  fix ps leaf f assume a: "descend bintree_root ps = Some leaf \<and> Func leaf = Some f"
  then have mem: "(ps, f) \<in> {([''in'', ''a'', ''test.asset''], Fn_in_a_test_asset),
                      ([''in'', ''b'', ''test.asset''], Fn_in_b_test_asset),
                      ([''in'', ''c'', ''test.asset''], Fn_in_c_test_asset),
                      ([''in'', ''test.asset''], Fn_in_test_asset)}"
    using leaf_paths by blast
  have all: "bindata k = Some f" if "strings_Split k ''/'' = ps" for k
  proof -
    from that have "joinc (CHR ''/'') ps = k"
      using joinc_splitc[of "CHR ''/''" k] by (simp add: strings_Split_char)
    with mem show ?thesis unfolding bindata_keys by auto
  qed
  have ex: "\<exists>k. strings_Split k ''/'' = ps"
    using mem by (auto simp: strings_Split_char intro: exI[of _ "joinc (CHR ''/'') ps"])
  show "\<exists>!k. k \<in> dom bindata \<and> strings_Split k ''/'' = ps"
  proof -
    from ex obtain k where k: "strings_Split k ''/'' = ps" by blast
    with all have "k \<in> dom bindata" by blast
    moreover have "k' = k" if "strings_Split k' ''/'' = ps" for k'
      using that k splitc_inj[of "CHR ''/''" k' k] by (simp add: strings_Split_char)
    ultimately show ?thesis using k by blast
  qed
  show "bindata k = Some f" if "strings_Split k ''/'' = ps" for k using all that by blast
qed


lemma canon_eq: "strings_Replace name [CHR 0x5C] ''/'' = map (\<lambda>c. if c = CHR 0x5C then CHR ''/'' else c) name"
  by (simp add: strings_Replace_char)

text \<open>
  Claim C4. \<^verbatim>\<open>Asset\<close> looks up the name with every backslash replaced by a slash. When
  that name is not a key, the result is the error "Asset name not found", which holds the
  name as it was passed. When it is a key, the function of the table is called: the bytes
  of the asset it returns are the result, and an error it returns is wrapped into "Asset
  name can't read by error".
\<close>

theorem Asset_lookup:
  "(bindata (map (\<lambda>c. if c = CHR 0x5C then CHR ''/'' else c) name) = None \<longrightarrow>
      Asset call name = Inl (AssetNotFound name)) \<and>
   (\<forall>f a. bindata (map (\<lambda>c. if c = CHR 0x5C then CHR ''/'' else c) name) = Some f \<and>
          call f = Inr a \<longrightarrow> Asset call name = Inr (bytes a)) \<and>
   (\<forall>f e. bindata (map (\<lambda>c. if c = CHR 0x5C then CHR ''/'' else c) name) = Some f \<and>
          call f = Inl e \<longrightarrow> Asset call name = Inl (AssetReadError name e))"
  by (simp add: Asset_def canon_eq)

theorem Asset_lookup_witness:
  "Asset raw_call [CHR ''i'', CHR ''n'', CHR 0x5C, CHR ''a'', CHR ''/'', CHR ''t'', CHR ''e'',
                   CHR ''s'', CHR ''t'', CHR ''.'', CHR ''a'', CHR ''s'', CHR ''s'', CHR ''e'', CHR ''t'']
     = Inr (bytes_of_string ''// sample file\<newline>'') \<and>
   Asset raw_call ''missing/path'' = Inl (AssetNotFound ''missing/path'') \<and>
   Asset (\<lambda>f. Inl (LibError ''unexpected EOF'')) ''in/test.asset''
     = Inl (AssetReadError ''in/test.asset'' (LibError ''unexpected EOF''))"
proof -
  let ?n = "[CHR ''i'', CHR ''n'', CHR 0x5C, CHR ''a'', CHR ''/'', CHR ''t'', CHR ''e'',
             CHR ''s'', CHR ''t'', CHR ''.'', CHR ''a'', CHR ''s'', CHR ''s'', CHR ''e'', CHR ''t'']"
  have k1: "bindata (map (\<lambda>c. if c = CHR 0x5C then CHR ''/'' else c) ?n) = Some Fn_in_a_test_asset"
    by (simp add: bindata_def bindata_entries_def)
  have c1: "raw_call Fn_in_a_test_asset =
      Inr \<lparr>bytes = bytes_of_string ''// sample file\<newline>'',
           info = \<lparr>fi_name = ''in/a/test.asset'', fi_size = 15, fi_mode = 420,
                    fi_modTime = 1430781941\<rparr>\<rparr>"
    by (simp add: raw_in_a_test_asset_def raw_in_a_test_asset_bytes_def raw_in_a_test_asset_data_def)
  have k2: "bindata (map (\<lambda>c. if c = CHR 0x5C then CHR ''/'' else c) ''missing/path'') = None"
    by (simp add: bindata_def bindata_entries_def)
  have k3: "bindata (map (\<lambda>c. if c = CHR 0x5C then CHR ''/'' else c) ''in/test.asset'') = Some Fn_in_test_asset"
    by (simp add: bindata_def bindata_entries_def)
  from Asset_lookup[of ?n raw_call] k1 c1
  have "Asset raw_call ?n = Inr (bytes_of_string ''// sample file\<newline>'')" by simp
  moreover from Asset_lookup[of "''missing/path''" raw_call] k2
  have "Asset raw_call ''missing/path'' = Inl (AssetNotFound ''missing/path'')" by blast
  moreover from Asset_lookup[of "''in/test.asset''" "\<lambda>f. Inl (LibError ''unexpected EOF'')"] k3
  have "Asset (\<lambda>f. Inl (LibError ''unexpected EOF'')) ''in/test.asset''
     = Inl (AssetReadError ''in/test.asset'' (LibError ''unexpected EOF''))" by blast
  ultimately show ?thesis by blast
qed

text \<open>
  Claim C7. \<^verbatim>\<open>MustAsset\<close> panics exactly when \<^verbatim>\<open>Asset\<close> returns an error (the panic
  value holds the name and that error), and returns the bytes of \<^verbatim>\<open>Asset\<close> otherwise.
\<close>

theorem MustAsset_wraps_Asset:
  "(\<forall>e. Asset call name = Inl e \<longrightarrow> MustAsset call name = Inl (AssetPanic name e)) \<and>
   (\<forall>b. Asset call name = Inr b \<longrightarrow> MustAsset call name = Inr b) \<and>
   ((\<exists>p. MustAsset call name = Inl p) = (\<exists>e. Asset call name = Inl e))"
  by (auto simp: MustAsset_def split: sum.splits)

theorem MustAsset_wraps_Asset_witness:
  "MustAsset raw_call ''in/test.asset'' = Inr (bytes_of_string ''// sample file\<newline>'') \<and>
   Asset raw_call ''in/test.asset'' = Inr (bytes_of_string ''// sample file\<newline>'') \<and>
   MustAsset raw_call ''missing/path'' = Inl (AssetPanic ''missing/path'' (AssetNotFound ''missing/path'')) \<and>
   Asset raw_call ''missing/path'' = Inl (AssetNotFound ''missing/path'')"
proof -
  have a1: "Asset raw_call ''in/test.asset'' = Inr (bytes_of_string ''// sample file\<newline>'')"
    by (simp add: Asset_def bindata_def bindata_entries_def raw_in_test_asset_def
        raw_in_test_asset_bytes_def raw_in_test_asset_data_def)
  have a2: "Asset raw_call ''missing/path'' = Inl (AssetNotFound ''missing/path'')"
    by (simp add: Asset_def bindata_def bindata_entries_def)
  from MustAsset_wraps_Asset[of raw_call "''in/test.asset''"] a1
  have "MustAsset raw_call ''in/test.asset'' = Inr (bytes_of_string ''// sample file\<newline>'')"
    by blast
  moreover from MustAsset_wraps_Asset[of raw_call "''missing/path''"] a2
  have "MustAsset raw_call ''missing/path'' = Inl (AssetPanic ''missing/path'' (AssetNotFound ''missing/path''))"
    by blast
  ultimately show ?thesis using a1 a2 by blast
qed

lemma AssetDir_ok_not_key:
  assumes "AssetDir ord name = Inr names"
  shows "bindata (strings_Replace name [CHR 0x5C] ''/'') = None"
proof (cases "name = []")
  case True
  then show ?thesis by (simp add: bindata_def bindata_entries_def)
next
  case False
  show ?thesis
  proof (rule ccontr)
    assume "bindata (strings_Replace name [CHR 0x5C] ''/'') \<noteq> None"
    then obtain f where "bindata (strings_Replace name [CHR 0x5C] ''/'') = Some f" by blast
    from key_reaches_leaf[OF this] assms False show False
      by (simp add: AssetDir_def)
  qed
qed

text \<open>
  Claim C9. Whatever \<^verbatim>\<open>AssetInfo\<close> returns has \<^verbatim>\<open>IsDir() == false\<close> and
  \<^verbatim>\<open>Sys() == nil\<close>; and on a name that \<^verbatim>\<open>AssetDir\<close> lists as a directory,
  \<^verbatim>\<open>AssetInfo\<close> fails with "AssetInfo name not found": no directory has metadata.
\<close>

theorem AssetInfo_never_dir:
  "(\<forall>fi. AssetInfo call name = Inr fi \<longrightarrow> IsDir fi = False \<and> Sys fi = None) \<and>
   (\<forall>ord names. AssetDir ord name = Inr names \<longrightarrow> AssetInfo call name = Inl (AssetInfoNotFound name))"
proof (intro conjI allI impI)
  fix ord names assume "AssetDir ord name = Inr names"
  from AssetDir_ok_not_key[OF this]
  show "AssetInfo call name = Inl (AssetInfoNotFound name)" by (simp add: AssetInfo_def)
qed (simp_all add: IsDir_def Sys_def)

theorem AssetInfo_never_dir_witness:
  "AssetInfo raw_call ''in/a/test.asset'' =
     Inr \<lparr>fi_name = ''in/a/test.asset'', fi_size = 15, fi_mode = 420, fi_modTime = 1430781941\<rparr> \<and>
   IsDir \<lparr>fi_name = ''in/a/test.asset'', fi_size = 15, fi_mode = 420, fi_modTime = 1430781941\<rparr> = False \<and>
   Sys \<lparr>fi_name = ''in/a/test.asset'', fi_size = 15, fi_mode = 420, fi_modTime = 1430781941\<rparr> = None \<and>
   AssetDir (\<lambda>ks. ks) ''in/a'' = Inr [''test.asset''] \<and>
   AssetInfo raw_call ''in/a'' = Inl (AssetInfoNotFound ''in/a'')"
proof -
  have i: "AssetInfo raw_call ''in/a/test.asset'' =
     Inr \<lparr>fi_name = ''in/a/test.asset'', fi_size = 15, fi_mode = 420, fi_modTime = 1430781941\<rparr>"
    by (simp add: AssetInfo_def bindata_def bindata_entries_def raw_in_a_test_asset_def
        raw_in_a_test_asset_bytes_def)
  have d: "AssetDir (\<lambda>ks. ks) ''in/a'' = Inr [''test.asset'']"
    by (simp add: AssetDir_def strings_Split_def bintree_root_def)
  from AssetInfo_never_dir[of raw_call "''in/a/test.asset''"] i
  have "IsDir \<lparr>fi_name = ''in/a/test.asset'', fi_size = 15, fi_mode = 420, fi_modTime = 1430781941\<rparr> = False \<and>
   Sys \<lparr>fi_name = ''in/a/test.asset'', fi_size = 15, fi_mode = 420, fi_modTime = 1430781941\<rparr> = None"
    by blast
  moreover from AssetInfo_never_dir[of raw_call "''in/a''"] d
  have "AssetInfo raw_call ''in/a'' = Inl (AssetInfoNotFound ''in/a'')" by blast
  ultimately show ?thesis using i d by blast
qed

theorem table_tree_agree_witness:
  "bindata ''in/a/test.asset'' = Some Fn_in_a_test_asset \<and>
   descend bintree_root (strings_Split ''in/a/test.asset'' ''/'') =
     Some (Bintree (Some Fn_in_a_test_asset) []) \<and>
   descend bintree_root [''in'', ''test.asset''] = Some (Bintree (Some Fn_in_test_asset) []) \<and>
   strings_Split ''in/test.asset'' ''/'' = [''in'', ''test.asset''] \<and>
   bindata ''in/test.asset'' = Some Fn_in_test_asset"
proof -
  have k: "bindata ''in/a/test.asset'' = Some Fn_in_a_test_asset"
    by (simp add: bindata_def bindata_entries_def)
  have d: "descend bintree_root [''in'', ''test.asset''] = Some (Bintree (Some Fn_in_test_asset) [])"
    by (simp add: bintree_root_def)
  have s: "strings_Split ''in/test.asset'' ''/'' = [''in'', ''test.asset'']"
    by (simp add: strings_Split_def)
  from table_tree_agree k
  obtain leaf where l: "descend bintree_root (strings_Split ''in/a/test.asset'' ''/'') = Some leaf"
    "Func leaf = Some Fn_in_a_test_asset" "Children leaf = []" by blast
  then have "leaf = Bintree (Some Fn_in_a_test_asset) []" by (cases leaf) simp
  with l have 1: "descend bintree_root (strings_Split ''in/a/test.asset'' ''/'') =
     Some (Bintree (Some Fn_in_a_test_asset) [])" by simp
  from table_tree_agree d s have "bindata ''in/test.asset'' = Some Fn_in_test_asset"
    by (metis bintree.sel(1))
  with k 1 d s show ?thesis by blast
qed

section \<open>AssetDir\<close>

lemma enumerates_keys_single: "enumerates_keys ord \<Longrightarrow> ord [k] = [k]"
proof -
  assume "enumerates_keys ord"
  then have s: "set (ord [k]) = {k}" and d: "distinct (ord [k])"
    by (simp_all add: enumerates_keys_def)
  from d have "length (ord [k]) = card (set (ord [k]))" by (simp add: distinct_card)
  with s have "length (ord [k]) = 1" by simp
  then obtain x where "ord [k] = [x]" by (cases "ord [k]") auto
  with s show ?thesis by simp
qed

lemma root_keys: "map fst (Children bintree_root) = [''in'']"
  by (simp add: bintree_root_def)

lemma Func_root: "Func bintree_root = None"
  by (simp add: bintree_root_def)

text \<open>
  Claim C6. \<^verbatim>\<open>AssetDir("")\<close> succeeds; whatever order the runtime enumerates the map
  in, the result holds exactly the keys of the root's children, each once; for this tree
  it is the one name \<^verbatim>\<open>"in"\<close>.
\<close>

theorem AssetDir_root:
  assumes "enumerates_keys ord"
  shows "AssetDir ord '''' = Inr (ord (map fst (Children bintree_root))) \<and>
         set (ord (map fst (Children bintree_root))) = fst ` set (Children bintree_root) \<and>
         distinct (ord (map fst (Children bintree_root))) \<and>
         AssetDir ord '''' = Inr [''in'']"
proof -
  have a: "AssetDir ord '''' = Inr (ord (map fst (Children bintree_root)))"
    by (simp add: AssetDir_def Func_root)
  have o: "ord (map fst (Children bintree_root)) = [''in'']"
    unfolding root_keys using assms by (rule enumerates_keys_single)
  have s: "fst ` set (Children bintree_root) = {''in''}"
    by (simp add: bintree_root_def)
  show ?thesis using a o s by simp
qed

theorem AssetDir_root_witness:
  "enumerates_keys rev \<and> AssetDir rev '''' = Inr [''in''] \<and>
   set (rev (map fst (Children bintree_root))) = fst ` set (Children bintree_root) \<and>
   distinct (rev (map fst (Children bintree_root)))"
proof -
  have e: "enumerates_keys rev" by (simp add: enumerates_keys_def)
  from AssetDir_root[OF e] e show ?thesis by blast
qed

text \<open>
  Claim C3 as stated fails. \<^verbatim>\<open>AssetDir("in/test.asset")\<close> resolves every segment and ends
  at a node that holds a function; the error is "Asset in/test.asset not found", built by
  the same format as the error for the absent segment of \<^verbatim>\<open>"in/missing"\<close>.
\<close>

theorem AssetDir_leaf_counterexample:
  "descend bintree_root (strings_Split (strings_Replace ''in/test.asset'' [CHR 0x5C] ''/'') ''/'')
     = Some (Bintree (Some Fn_in_test_asset) []) \<and>
   AssetDir id ''in/test.asset'' = Inl (AssetNotFound ''in/test.asset'') \<and>
   descend bintree_root (strings_Split (strings_Replace ''in/missing'' [CHR 0x5C] ''/'') ''/'') = None \<and>
   AssetDir id ''in/missing'' = Inl (AssetNotFound ''in/missing'')"
  by (simp add: AssetDir_def strings_Split_def bintree_root_def)

text \<open>
  Claim C3, amended. For a non-empty name, \<^verbatim>\<open>AssetDir\<close> fails with "Asset name not
  found" when a segment is absent from the tree, and with the same error when every
  segment resolves and the node reached holds a function; it has no other error.
\<close>

theorem AssetDir_errors:
  "(name \<noteq> [] \<and>
    descend bintree_root
      (strings_Split (map (\<lambda>c. if c = CHR 0x5C then CHR ''/'' else c) name) ''/'') = None
      \<longrightarrow> AssetDir ord name = Inl (AssetNotFound name)) \<and>
   (\<forall>node f. name \<noteq> [] \<and>
      descend bintree_root
        (strings_Split (map (\<lambda>c. if c = CHR 0x5C then CHR ''/'' else c) name) ''/'') = Some node \<and>
      Func node = Some f
      \<longrightarrow> AssetDir ord name = Inl (AssetNotFound name)) \<and>
   (\<forall>e. AssetDir ord name = Inl e \<longrightarrow> e = AssetNotFound name)"
  by (auto simp: AssetDir_def canon_eq Func_root split: option.splits if_splits)

theorem AssetDir_errors_witness:
  "AssetDir id ''in/missing'' = Inl (AssetNotFound ''in/missing'') \<and>
   AssetDir id ''in/test.asset'' = Inl (AssetNotFound ''in/test.asset'')"
proof -
  have 1: "''in/missing'' \<noteq> [] \<and> descend bintree_root
      (strings_Split (map (\<lambda>c. if c = CHR 0x5C then CHR ''/'' else c) ''in/missing'') ''/'') = None"
    by (simp add: strings_Split_def bintree_root_def)
  have 2: "''in/test.asset'' \<noteq> [] \<and> descend bintree_root
      (strings_Split (map (\<lambda>c. if c = CHR 0x5C then CHR ''/'' else c) ''in/test.asset'') ''/'')
        = Some (Bintree (Some Fn_in_test_asset) []) \<and>
      Func (Bintree (Some Fn_in_test_asset) []) = Some Fn_in_test_asset"
    by (simp add: strings_Split_def bintree_root_def)
  from AssetDir_errors[of "''in/missing''" id] 1
  have "AssetDir id ''in/missing'' = Inl (AssetNotFound ''in/missing'')" by blast
  moreover from AssetDir_errors[of "''in/test.asset''" id] 2
  have "AssetDir id ''in/test.asset'' = Inl (AssetNotFound ''in/test.asset'')" by blast
  ultimately show ?thesis by blast
qed

section \<open>bindataRead\<close>

lemma bindataRead_NewReader_error:
  "NewReader lib data = Inl e \<Longrightarrow> bindataRead lib data name = ([], Some (ReadError name e))"
  by (simp add: bindataRead_def)

lemma bindataRead_Copy_error:
  "NewReader lib data = Inr gz \<Longrightarrow> Copy lib gz = (buf, Some e, gz') \<Longrightarrow>
   bindataRead lib data name = ([], Some (ReadError name e))"
  by (simp add: bindataRead_def)

lemma bindataRead_ok:
  "NewReader lib data = Inr gz \<Longrightarrow> Copy lib gz = (buf, None, gz') \<Longrightarrow> Close lib gz' = None \<Longrightarrow>
   bindataRead lib data name = (buf, None)"
  by (simp add: bindataRead_def)

section \<open>RestoreAssets\<close>

lemma unreplace_complete:
  "map (\<lambda>c. if c = CHR 0x5C then CHR ''/'' else c) name = t \<Longrightarrow> name \<in> set (unreplace t)"
  by (induction name arbitrary: t) (auto split: if_splits)

lemma AssetDir_resolve:
  "AssetDir ord name =
     (case resolve name of
        None \<Rightarrow> Inl (AssetNotFound name)
      | Some node \<Rightarrow> if Func node \<noteq> None then Inl (AssetNotFound name)
                     else Inr (ord (map fst (Children node))))"
  by (simp add: AssetDir_def resolve_def)

lemma restore_each_append:
  "restore_each r (xs @ ys) w =
     (case restore_each r xs w of
        (Some e, w') \<Rightarrow> (Some e, w')
      | (None, w') \<Rightarrow> restore_each r ys w')"
  by (induction xs arbitrary: w) (auto split: prod.splits option.splits)

lemma for_children_concat:
  assumes "\<And>k w. k \<in> set ks \<Longrightarrow> body k w = Some (restore_each r (g k) w)"
  shows "for_children body ks w = Some (restore_each r (concat (map g ks)) w)"
  using assms
proof (induction ks arbitrary: w)
  case Nil
  then show ?case by simp
next
  case (Cons k ks)
  have b: "body k w = Some (restore_each r (g k) w)" using Cons.prems by simp
  show ?case
  proof (cases "restore_each r (g k) w")
    case (Pair e w')
    show ?thesis
    proof (cases e)
      case None
      with Pair b Cons show ?thesis by (simp add: restore_each_append)
    next
      case (Some err)
      with Pair b show ?thesis by (simp add: restore_each_append)
    qed
  qed
qed

lemmas path_eval = path_Clean_def clean_step_def step_back.simps path_Dir_def

lemma dir_nodes:
  assumes "descend bintree_root ps = Some n" and "Func n = None"
  shows "ps \<in> {[], [''in''], [''in'', ''a''], [''in'', ''b''], [''in'', ''c'']}"
proof -
  from descend_nodes[OF assms(1)] have "(ps, n) \<in> set (nodes bintree_root)" .
  then show ?thesis using assms(2) unfolding nodes_root
    by (elim insertE emptyE) (simp_all add: bintree_root_def)
qed

lemma dir_names:
  assumes "AssetDir ord name = Inr children"
  shows "name \<in> {'''', ''in'', ''in/a'', [CHR ''i'', CHR ''n'', CHR 0x5C, CHR ''a''],
                 ''in/b'', [CHR ''i'', CHR ''n'', CHR 0x5C, CHR ''b''],
                 ''in/c'', [CHR ''i'', CHR ''n'', CHR 0x5C, CHR ''c'']}"
proof (cases "name = []")
  case True
  then show ?thesis by simp
next
  case False
  let ?canon = "map (\<lambda>c. if c = CHR 0x5C then CHR ''/'' else c) name"
  from assms False obtain n where d: "descend bintree_root (splitc (CHR ''/'') ?canon) = Some n"
    and f: "Func n = None"
    by (auto simp: AssetDir_def canon_eq strings_Split_char split: option.splits if_splits)
  from dir_nodes[OF d f] splitc_nonempty[of "CHR ''/''" ?canon]
  have "splitc (CHR ''/'') ?canon \<in> {[''in''], [''in'', ''a''], [''in'', ''b''], [''in'', ''c'']}"
    by auto
  then have "joinc (CHR ''/'') (splitc (CHR ''/'') ?canon) \<in> {''in'', ''in/a'', ''in/b'', ''in/c''}"
    by (elim insertE emptyE) simp_all
  then have c: "?canon \<in> {''in'', ''in/a'', ''in/b'', ''in/c''}" by (simp only: joinc_splitc)
  have u: "name \<in> set (unreplace ?canon)" by (rule unreplace_complete) (rule refl)
  from c u show ?thesis by (elim insertE emptyE; simp; (elim disjE; simp)?)
qed

lemma single_child:
  "for_children (\<lambda>child w. Some (r child w)) [k] w = Some (restore_each r [k] w)"
  by (simp split: prod.splits option.splits)

lemma RestoreAssets_leaf:
  "AssetDir ord name = Inl e \<Longrightarrow>
   RestoreAssets (Suc n) call ord os dir name w = Some (RestoreAsset call os dir name w)"
  by simp

lemma level2:
  assumes e: "enumerates_keys ord"
    and n: "name \<in> {''in/a'', [CHR ''i'', CHR ''n'', CHR 0x5C, CHR ''a''],
                     ''in/b'', [CHR ''i'', CHR ''n'', CHR 0x5C, CHR ''b''],
                     ''in/c'', [CHR ''i'', CHR ''n'', CHR 0x5C, CHR ''c'']}"
  shows "\<exists>node. resolve name = Some node \<and> Func node = None \<and>
           leaf_names ord name node = [name @ ''/test.asset''] \<and>
           (\<forall>w. RestoreAssets (Suc (Suc fuel)) call ord os dir name w =
                  Some (restore_each (RestoreAsset call os dir) [name @ ''/test.asset''] w))"
  using n
  by (elim insertE emptyE)
     (simp_all add: resolve_def AssetDir_def strings_Split_def bintree_root_def path_eval
        enumerates_keys_single[OF e] split: prod.splits option.splits)

lemma resolve_in: "resolve ''in'' = Some in_node"
  by (simp add: resolve_def strings_Split_def bintree_root_def in_node_def)

lemma resolve_root: "resolve '''' = Some (Bintree None [(''in'', in_node)])"
  by (simp add: resolve_def bintree_root_def in_node_def)

lemma in_keys:
  assumes "enumerates_keys ord"
  shows "set (ord [''a'', ''b'', ''c'', ''test.asset'']) = {''a'', ''b'', ''c'', ''test.asset''}"
proof -
  have "distinct [''a'', ''b'', ''c'', ''test.asset'']" by simp
  with assms have "set (ord [''a'', ''b'', ''c'', ''test.asset'']) = set [''a'', ''b'', ''c'', ''test.asset'']"
    unfolding enumerates_keys_def by blast
  then show ?thesis by simp
qed

lemma leaf_names_in:
  assumes e: "enumerates_keys ord"
  shows "leaf_names ord ''in'' in_node =
           concat (map (\<lambda>k. if k = ''test.asset'' then [''in/test.asset'']
                              else if k \<in> {''a'', ''b'', ''c''} then [''in/'' @ k @ ''/test.asset'']
                              else [])
                       (ord [''a'', ''b'', ''c'', ''test.asset'']))"
proof -
  have "leaf_names ord ''in'' in_node =
          concat (map (\<lambda>k. case map_of (Children in_node) k of None \<Rightarrow> []
                             | Some c \<Rightarrow> leaf_names ord (path_Join [''in'', k]) c)
                      (ord [''a'', ''b'', ''c'', ''test.asset'']))"
    by (simp add: in_node_def)
  also have "\<dots> = concat (map (\<lambda>k. if k = ''test.asset'' then [''in/test.asset'']
                              else if k \<in> {''a'', ''b'', ''c''} then [''in/'' @ k @ ''/test.asset'']
                              else [])
                       (ord [''a'', ''b'', ''c'', ''test.asset'']))"
  proof (rule arg_cong[where f = concat], rule map_cong[OF refl])
    fix k assume "k \<in> set (ord [''a'', ''b'', ''c'', ''test.asset''])"
    then have "k \<in> {''a'', ''b'', ''c'', ''test.asset''}" using in_keys[OF e] by simp
    then show "(case map_of (Children in_node) k of None \<Rightarrow> []
                 | Some c \<Rightarrow> leaf_names ord (path_Join [''in'', k]) c) =
               (if k = ''test.asset'' then [''in/test.asset'']
                else if k \<in> {''a'', ''b'', ''c''} then [''in/'' @ k @ ''/test.asset'']
                else [])"
      by (elim insertE emptyE)
         (simp_all add: in_node_def path_eval enumerates_keys_single[OF e])
  qed
  finally show ?thesis .
qed

lemma restore_each_single: "restore_each r [x] w = r x w"
  by (simp split: prod.splits option.splits)

lemma restore_each_abort:
  "restore_each r done w = (None, w1) \<Longrightarrow> r l w1 = (Some e, w2) \<Longrightarrow>
   restore_each r (done @ l # rest) w = (Some e, w2)"
  by (simp add: restore_each_append)

lemma AssetDir_in:
  "AssetDir ord ''in'' = Inr (ord [''a'', ''b'', ''c'', ''test.asset''])"
  by (simp add: AssetDir_resolve resolve_in in_node_def)

lemma run_in:
  assumes e: "enumerates_keys ord"
  shows "RestoreAssets (Suc (Suc (Suc fuel))) call ord os dir ''in'' w =
           Some (restore_each (RestoreAsset call os dir) (leaf_names ord ''in'' in_node) w)"
proof -
  let ?g = "\<lambda>k. if k = ''test.asset'' then [''in/test.asset'']
                 else if k \<in> {''a'', ''b'', ''c''} then [''in/'' @ k @ ''/test.asset'']
                 else []"
  have step: "RestoreAssets (Suc (Suc fuel)) call ord os dir (path_Join [''in'', k]) w' =
                Some (restore_each (RestoreAsset call os dir) (?g k) w')"
    if "k \<in> set (ord [''a'', ''b'', ''c'', ''test.asset''])" for k w'
  proof -
    from that have k: "k \<in> {''a'', ''b'', ''c'', ''test.asset''}" using in_keys[OF e] by simp
    have l2: "RestoreAssets (Suc (Suc fuel)) call ord os dir (''in/'' @ x) w' =
                Some (restore_each (RestoreAsset call os dir) [''in/'' @ x @ ''/test.asset''] w')"
      if "x \<in> {''a'', ''b'', ''c''}" for x
      using that level2[OF e, of "''in/'' @ x" fuel call os dir] by auto
    have t: "RestoreAssets (Suc (Suc fuel)) call ord os dir ''in/test.asset'' w' =
                Some (restore_each (RestoreAsset call os dir) [''in/test.asset''] w')"
      by (simp add: AssetDir_def strings_Split_def bintree_root_def split: prod.splits option.splits)
    from k show ?thesis
      by (elim insertE emptyE) (insert l2 t, simp_all add: path_eval)
  qed
  have "RestoreAssets (Suc (Suc (Suc fuel))) call ord os dir ''in'' w =
          for_children (\<lambda>child. RestoreAssets (Suc (Suc fuel)) call ord os dir (path_Join [''in'', child]))
            (ord [''a'', ''b'', ''c'', ''test.asset'']) w"
    by (simp add: AssetDir_in del: RestoreAssets.simps(2)[of "Suc (Suc fuel)"] path_Join.simps)
  also have "\<dots> = Some (restore_each (RestoreAsset call os dir)
                        (concat (map ?g (ord [''a'', ''b'', ''c'', ''test.asset'']))) w)"
    by (rule for_children_concat) (rule step)
  finally show ?thesis by (simp only: leaf_names_in[OF e])
qed

lemma leaf_names_root:
  assumes e: "enumerates_keys ord"
  shows "leaf_names ord '''' (Bintree None [(''in'', in_node)]) = leaf_names ord ''in'' in_node"
  by (simp add: enumerates_keys_single[OF e] path_eval)

lemma run_root:
  assumes e: "enumerates_keys ord"
  shows "RestoreAssets (Suc (Suc (Suc (Suc fuel)))) call ord os dir '''' w =
           Some (restore_each (RestoreAsset call os dir) (leaf_names ord ''in'' in_node) w)"
proof -
  have a: "AssetDir ord '''' = Inr [''in'']"
    by (simp add: AssetDir_resolve resolve_root enumerates_keys_single[OF e])
  have j: "path_Join ['''', ''in''] = ''in''" by (simp add: path_eval)
  have "RestoreAssets (Suc (Suc (Suc (Suc fuel)))) call ord os dir '''' w =
          for_children (\<lambda>child. RestoreAssets (Suc (Suc (Suc fuel))) call ord os dir (path_Join ['''', child]))
            [''in''] w"
    by (simp add: a del: RestoreAssets.simps(2)[of "Suc (Suc (Suc fuel))"] path_Join.simps)
  also have "\<dots> = Some (restore_each (RestoreAsset call os dir)
                        (concat (map (\<lambda>k. leaf_names ord ''in'' in_node) [''in''])) w)"
    by (rule for_children_concat) (simp only: list.set singleton_iff j run_in[OF e])
  finally show ?thesis by simp
qed

lemma set_leaf_names_in:
  assumes e: "enumerates_keys ord"
  shows "set (leaf_names ord ''in'' in_node) =
           {''in/a/test.asset'', ''in/b/test.asset'', ''in/c/test.asset'', ''in/test.asset''}"
  unfolding leaf_names_in[OF e] set_concat set_map in_keys[OF e]
  by auto

lemma under_six:
  assumes n: "name \<in> {''in/a'', [CHR ''i'', CHR ''n'', CHR 0x5C, CHR ''a''],
                     ''in/b'', [CHR ''i'', CHR ''n'', CHR 0x5C, CHR ''b''],
                     ''in/c'', [CHR ''i'', CHR ''n'', CHR 0x5C, CHR ''c'']}"
  shows "set (map (\<lambda>l. strings_Replace l [CHR 0x5C] ''/'') [name @ ''/test.asset'']) =
           set (filter (under name) (map fst bindata_entries))"
  using n
  by (elim insertE emptyE) (simp_all add: bindata_entries_def under_def)

lemma under_in:
  assumes e: "enumerates_keys ord"
  shows "set (map (\<lambda>l. strings_Replace l [CHR 0x5C] ''/'') (leaf_names ord ''in'' in_node)) =
           set (filter (under ''in'') (map fst bindata_entries))"
  unfolding set_map set_leaf_names_in[OF e]
  by (simp add: bindata_entries_def under_def insert_commute)

lemma under_root:
  assumes e: "enumerates_keys ord"
  shows "set (map (\<lambda>l. strings_Replace l [CHR 0x5C] ''/'') (leaf_names ord ''in'' in_node)) =
           set (filter (under '''') (map fst bindata_entries))"
  unfolding set_map set_leaf_names_in[OF e]
  by (simp add: bindata_entries_def under_def insert_commute)

text \<open>
  Claim C8. When \<^verbatim>\<open>RestoreAssets\<close> is called on a name that \<^verbatim>\<open>AssetDir\<close> lists
  (a directory), four levels of calls suffice, and the call does what restoring the leaves
  below that node one after the other does: the names restored are, up to backslashes,
  exactly the keys of the table under that directory; and when the restore of one leaf
  fails after the leaves before it succeeded, the call returns that error and the file
  system is the one the failing \<^verbatim>\<open>RestoreAsset\<close> left, with everything the earlier
  ones wrote.
\<close>

theorem RestoreAssets_directory:
  assumes e: "enumerates_keys ord" and a: "AssetDir ord name = Inr children"
  shows "\<exists>node. resolve name = Some node \<and> Func node = None \<and>
           RestoreAssets (4 + fuel) call ord os dir name w =
             Some (restore_each (RestoreAsset call os dir) (leaf_names ord name node) w) \<and>
           set (map (\<lambda>l. strings_Replace l [CHR 0x5C] ''/'') (leaf_names ord name node)) =
             set (filter (under name) (map fst bindata_entries)) \<and>
           (\<forall>pre l rest err w1 w2.
              leaf_names ord name node = pre @ l # rest \<and>
              restore_each (RestoreAsset call os dir) pre w = (None, w1) \<and>
              RestoreAsset call os dir l w1 = (Some err, w2) \<longrightarrow>
              RestoreAssets (4 + fuel) call ord os dir name w = Some (Some err, w2))"
proof -
  have four: "4 + fuel = Suc (Suc (Suc (Suc fuel)))" by simp
  have core: "\<exists>node. resolve name = Some node \<and> Func node = None \<and>
           RestoreAssets (4 + fuel) call ord os dir name w =
             Some (restore_each (RestoreAsset call os dir) (leaf_names ord name node) w) \<and>
           set (map (\<lambda>l. strings_Replace l [CHR 0x5C] ''/'') (leaf_names ord name node)) =
             set (filter (under name) (map fst bindata_entries))"
  proof -
    from dir_names[OF a] consider
        (root) "name = ''''"
      | (inn) "name = ''in''"
      | (six) "name \<in> {''in/a'', [CHR ''i'', CHR ''n'', CHR 0x5C, CHR ''a''],
                     ''in/b'', [CHR ''i'', CHR ''n'', CHR 0x5C, CHR ''b''],
                     ''in/c'', [CHR ''i'', CHR ''n'', CHR 0x5C, CHR ''c'']}"
      by blast
    then show ?thesis
    proof cases
      case root
      have "Func (Bintree None [(''in'', in_node)]) = None" by simp
      with root resolve_root run_root[OF e, of fuel call os dir w] leaf_names_root[OF e]
        under_root[OF e]
      show ?thesis unfolding four by metis
    next
      case inn
      have "Func in_node = None" by (simp add: in_node_def)
      with inn resolve_in run_in[OF e, of "Suc fuel" call os dir w] under_in[OF e]
      show ?thesis unfolding four by metis
    next
      case six
      from level2[OF e six, of "Suc (Suc fuel)" call os dir] under_six[OF six]
      show ?thesis unfolding four by metis
    qed
  qed
  then obtain node where n: "resolve name = Some node" "Func node = None"
    "RestoreAssets (4 + fuel) call ord os dir name w =
       Some (restore_each (RestoreAsset call os dir) (leaf_names ord name node) w)"
    "set (map (\<lambda>l. strings_Replace l [CHR 0x5C] ''/'') (leaf_names ord name node)) =
       set (filter (under name) (map fst bindata_entries))"
    by blast
  have "RestoreAssets (4 + fuel) call ord os dir name w = Some (Some err, w2)"
    if "leaf_names ord name node = pre @ l # rest"
      and "restore_each (RestoreAsset call os dir) pre w = (None, w1)"
      and "RestoreAsset call os dir l w1 = (Some err, w2)" for pre l rest err w1 w2
    using that n(3) restore_each_abort[of "RestoreAsset call os dir" pre w w1 l err w2 rest]
    by simp
  with n show ?thesis by blast
qed

lemma raw_assets:
  "Asset raw_call ''in/a/test.asset'' = Inr (bytes_of_string ''// sample file\<newline>'')"
  "Asset raw_call ''in/b/test.asset'' = Inr (bytes_of_string ''// sample file\<newline>'')"
  "Asset raw_call ''in/c/test.asset'' = Inr (bytes_of_string ''// sample file\<newline>'')"
  "Asset raw_call ''in/test.asset'' = Inr (bytes_of_string ''// sample file\<newline>'')"
  by (simp_all add: Asset_def bindata_def bindata_entries_def
      raw_in_a_test_asset_def raw_in_a_test_asset_bytes_def raw_in_a_test_asset_data_def
      raw_in_b_test_asset_def raw_in_b_test_asset_bytes_def raw_in_b_test_asset_data_def
      raw_in_c_test_asset_def raw_in_c_test_asset_bytes_def raw_in_c_test_asset_data_def
      raw_in_test_asset_def raw_in_test_asset_bytes_def raw_in_test_asset_data_def)

lemma raw_infos:
  "AssetInfo raw_call ''in/a/test.asset'' =
     Inr \<lparr>fi_name = ''in/a/test.asset'', fi_size = 15, fi_mode = 420, fi_modTime = 1430781941\<rparr>"
  "AssetInfo raw_call ''in/b/test.asset'' =
     Inr \<lparr>fi_name = ''in/b/test.asset'', fi_size = 15, fi_mode = 420, fi_modTime = 1430781941\<rparr>"
  "AssetInfo raw_call ''in/c/test.asset'' =
     Inr \<lparr>fi_name = ''in/c/test.asset'', fi_size = 15, fi_mode = 420, fi_modTime = 1430781941\<rparr>"
  "AssetInfo raw_call ''in/test.asset'' =
     Inr \<lparr>fi_name = ''in/test.asset'', fi_size = 15, fi_mode = 420, fi_modTime = 1430781941\<rparr>"
  by (simp_all add: AssetInfo_def bindata_def bindata_entries_def
      raw_in_a_test_asset_def raw_in_a_test_asset_bytes_def
      raw_in_b_test_asset_def raw_in_b_test_asset_bytes_def
      raw_in_c_test_asset_def raw_in_c_test_asset_bytes_def
      raw_in_test_asset_def raw_in_test_asset_bytes_def)

lemma leaf_names_in_id:
  "leaf_names id ''in'' in_node =
     [''in/a/test.asset'', ''in/b/test.asset'', ''in/c/test.asset'', ''in/test.asset'']"
  by (simp add: in_node_def path_eval)

lemma test_run:
  "restore_each (RestoreAsset raw_call (test_os ''out/in/c/test.asset'') ''out'')
     [''in/a/test.asset'', ''in/b/test.asset'', ''in/c/test.asset'', ''in/test.asset''] [] =
   (Some (LibError ''write failed''),
    [(''out/in/a/test.asset'', bytes_of_string ''// sample file\<newline>'', 420, 1430781941),
     (''out/in/b/test.asset'', bytes_of_string ''// sample file\<newline>'', 420, 1430781941)])"
  by (simp add: RestoreAsset_def raw_assets raw_infos test_os_def filePath_def strings_Split_def
      path_eval Mode_def ModTime_def)

theorem RestoreAssets_directory_witness:
  "enumerates_keys id \<and>
   AssetDir id ''in'' = Inr [''a'', ''b'', ''c'', ''test.asset''] \<and>
   RestoreAssets 4 raw_call id (test_os ''out/in/c/test.asset'') ''out'' ''in'' [] =
     Some (Some (LibError ''write failed''),
       [(''out/in/a/test.asset'', bytes_of_string ''// sample file\<newline>'', 420, 1430781941),
        (''out/in/b/test.asset'', bytes_of_string ''// sample file\<newline>'', 420, 1430781941)])"
proof -
  have e: "enumerates_keys id" by (simp add: enumerates_keys_def)
  have a: "AssetDir id ''in'' = Inr [''a'', ''b'', ''c'', ''test.asset'']"
    by (simp add: AssetDir_in)
  from RestoreAssets_directory[OF e a, of 0 raw_call "test_os ''out/in/c/test.asset''" "''out''" "[]"]
  obtain node where "resolve ''in'' = Some node"
    and run: "RestoreAssets (4 + 0) raw_call id (test_os ''out/in/c/test.asset'') ''out'' ''in'' [] =
      Some (restore_each (RestoreAsset raw_call (test_os ''out/in/c/test.asset'') ''out'')
              (leaf_names id ''in'' node) [])"
    by blast
  then have "node = in_node" by (simp add: resolve_in)
  with run have "RestoreAssets 4 raw_call id (test_os ''out/in/c/test.asset'') ''out'' ''in'' [] =
      Some (restore_each (RestoreAsset raw_call (test_os ''out/in/c/test.asset'') ''out'')
              [''in/a/test.asset'', ''in/b/test.asset'', ''in/c/test.asset'', ''in/test.asset''] [])"
    by (simp only: leaf_names_in_id add_0_right)
  with e a show ?thesis by (simp only: test_run simp_thms)
qed


end
